theory Spec2Isabelle
  imports Main
begin

section \<open>Calendar import: a shallow embedding of main.py\<close>

text \<open>
  The script reads \<^verbatim>\<open>calendar_events.csv\<close>, authenticates against the calendar
  service and inserts one weekly recurring event per data row. Everything outside the
  script (environment, token file, OAuth provider, calendar service, CSV file) is a field
  of the record \<open>world\<close>; every call that leaves the process is an entry of the returned
  trace. Exceptions are values of type \<open>error\<close>; only subclasses of Python's
  \<^verbatim>\<open>Exception\<close> are modelled (an interrupt of the process is not an execution of
  the script's own code). Strings are ASCII. The statements at module level (logging
  set-up, loading of the \<^verbatim>\<open>.env\<close> file, the log of the environment) run before
  \<^verbatim>\<open>main\<close>, read local state only and are left out of the trace.
\<close>

subsection \<open>Exceptions and Python values\<close>

datatype error =
    ValueError string
  | KeyError string
  | StopIteration
  | HttpError string
  | LibraryError string

datatype pyval = PyNone | PyStr string

text \<open>Sequencing of fallible steps: the first raise ends the computation.\<close>

definition and_then :: "error + 'a \<Rightarrow> ('a \<Rightarrow> error + 'b) \<Rightarrow> error + 'b" where
  "and_then r f = (case r of Inl e \<Rightarrow> Inl e | Inr v \<Rightarrow> f v)"

text \<open>Truthiness of \<^verbatim>\<open>os.getenv\<close> results and of optional strings: \<^verbatim>\<open>None\<close> and
  the empty string are false.\<close>

definition truthy :: "string option \<Rightarrow> bool" where
  "truthy v = (case v of None \<Rightarrow> False | Some s \<Rightarrow> s \<noteq> [])"

text \<open>\<^verbatim>\<open>format(v)\<close> inside an f-string.\<close>

definition py_str :: "pyval \<Rightarrow> string" where
  "py_str v = (case v of PyNone \<Rightarrow> ''None'' | PyStr s \<Rightarrow> s)"

subsection \<open>The datetime library, as far as the script uses it\<close>

record datetime =
  year :: int
  month :: int
  day :: int
  hour :: int
  minute :: int
  second :: int

definition is_leap :: "int \<Rightarrow> bool" where
  "is_leap y = (y mod 4 = 0 \<and> (y mod 100 \<noteq> 0 \<or> y mod 400 = 0))"

definition days_before_year :: "int \<Rightarrow> int" where
  "days_before_year y = (y - 1) * 365 + (y - 1) div 4 - (y - 1) div 100 + (y - 1) div 400"

definition DAYS_IN_MONTH :: "int list" where
  "DAYS_IN_MONTH = [31, 28, 31, 30, 31, 30, 31, 31, 30, 31, 30, 31]"

definition DAYS_BEFORE_MONTH :: "int list" where
  "DAYS_BEFORE_MONTH = [0, 31, 59, 90, 120, 151, 181, 212, 243, 273, 304, 334]"

text \<open>Both tables are read at \<open>month - 1\<close>; the callers check \<open>1 \<le> month \<le> 12\<close> first.\<close>

definition days_in_month :: "int \<Rightarrow> int \<Rightarrow> int" where
  "days_in_month y m = (if m = 2 \<and> is_leap y then 29 else DAYS_IN_MONTH ! nat (m - 1))"

definition days_before_month :: "int \<Rightarrow> int \<Rightarrow> int" where
  "days_before_month y m =
     DAYS_BEFORE_MONTH ! nat (m - 1) + (if m > 2 \<and> is_leap y then 1 else 0)"

definition ymd2ord :: "int \<Rightarrow> int \<Rightarrow> int \<Rightarrow> int" where
  "ymd2ord y m d = days_before_year y + days_before_month y m + d"

definition toordinal :: "datetime \<Rightarrow> int" where
  "toordinal dt = ymd2ord (year dt) (month dt) (day dt)"

text \<open>\<^verbatim>\<open>weekday()\<close>: Monday is 0, Sunday is 6.\<close>

definition weekday :: "datetime \<Rightarrow> int" where
  "weekday dt = (toordinal dt + 6) mod 7"

text \<open>The checks of the \<^verbatim>\<open>datetime\<close> constructor (\<^verbatim>\<open>_check_date_fields\<close>,
  \<^verbatim>\<open>_check_time_fields\<close>), in their order.\<close>

definition check_fields :: "datetime \<Rightarrow> error + datetime" where
  "check_fields dt =
     (if \<not> (1 \<le> year dt \<and> year dt \<le> 9999) then Inl (ValueError ''year must be in 1..9999'')
      else if \<not> (1 \<le> month dt \<and> month dt \<le> 12) then Inl (ValueError ''month must be in 1..12'')
      else if \<not> (1 \<le> day dt \<and> day dt \<le> days_in_month (year dt) (month dt))
        then Inl (ValueError ''day is out of range for month'')
      else if \<not> (0 \<le> hour dt \<and> hour dt \<le> 23) then Inl (ValueError ''hour must be in 0..23'')
      else if \<not> (0 \<le> minute dt \<and> minute dt \<le> 59) then Inl (ValueError ''minute must be in 0..59'')
      else if \<not> (0 \<le> second dt \<and> second dt \<le> 59) then Inl (ValueError ''second must be in 0..59'')
      else Inr dt)"

subsubsection \<open>strptime with the format \<^verbatim>\<open>%Y-%m-%d %H:%M\<close>\<close>

text \<open>
  \<^verbatim>\<open>_strptime\<close> turns the format into a regular expression and calls \<^verbatim>\<open>match\<close>.
  A directive is a list of alternatives, tried in order; an alternative is a sequence of
  character classes. The tables below are the library's:
  \<^verbatim>\<open>Y: \d\d\d\d   m: 1[0-2]|0[1-9]|[1-9]   d: 3[0-1]|[1-2]\d|0[1-9]|[1-9]| [1-9]\<close>
  \<^verbatim>\<open>H: 2[0-3]|[0-1]\d|\d   M: [0-5]\d|\d\<close>, and the blank of the format is \<^verbatim>\<open>\s+\<close>.
\<close>

definition digits :: string where
  "digits = ''0123456789''"

definition nonzero :: string where
  "nonzero = ''123456789''"

definition directive_Y :: "string list list" where
  "directive_Y = [[digits, digits, digits, digits]]"

definition directive_m :: "string list list" where
  "directive_m = [[''1'', ''012''], [''0'', nonzero], [nonzero]]"

definition directive_d :: "string list list" where
  "directive_d = [[''3'', ''01''], [''12'', digits], [''0'', nonzero], [nonzero], ['' '', nonzero]]"

definition directive_H :: "string list list" where
  "directive_H = [[''2'', ''0123''], [''01'', digits], [digits]]"

definition directive_M :: "string list list" where
  "directive_M = [[''012345'', digits], [digits]]"

text \<open>One alternative against the start of the input: the matched text and the rest.\<close>

fun match_seq :: "string list \<Rightarrow> string \<Rightarrow> (string \<times> string) option" where
  "match_seq [] s = Some ([], s)"
| "match_seq (cls # clss) [] = None"
| "match_seq (cls # clss) (c # s) =
     (if c \<in> set cls
      then (case match_seq clss s of None \<Rightarrow> None | Some (m, r) \<Rightarrow> Some (c # m, r))
      else None)"

text \<open>All ways a directive matches, in the order the backtracking matcher tries them.\<close>

definition match_directive :: "string list list \<Rightarrow> string \<Rightarrow> (string \<times> string) list" where
  "match_directive alts s = List.map_filter (\<lambda>a. match_seq a s) alts"

definition match_lit :: "char \<Rightarrow> string \<Rightarrow> string list" where
  "match_lit c s = (case s of [] \<Rightarrow> [] | x # r \<Rightarrow> if x = c then [r] else [])"

text \<open>ASCII white space as \<^verbatim>\<open>\s\<close> sees it: codes 9 to 13, 28 to 32.\<close>

definition is_space :: "char \<Rightarrow> bool" where
  "is_space c = (let n = (of_char c :: nat) in (9 \<le> n \<and> n \<le> 13) \<or> (28 \<le> n \<and> n \<le> 32))"

text \<open>\<^verbatim>\<open>\s+\<close> is greedy: the longest run first, then shorter ones, never empty.\<close>

definition match_spaces :: "string \<Rightarrow> string list" where
  "match_spaces s = map (\<lambda>k. drop k s) (rev [1 ..< Suc (length (takeWhile is_space s))])"

text \<open>The first match of the whole expression, with its five groups and what is left.\<close>

definition format_regex_match ::
  "string \<Rightarrow> ((string \<times> string \<times> string \<times> string \<times> string) \<times> string) option" where
  "format_regex_match s =
     (case [((Y, m, d, H, M), r9).
              (Y, r1) \<leftarrow> match_directive directive_Y s,
              r2 \<leftarrow> match_lit (CHR ''-'') r1,
              (m, r3) \<leftarrow> match_directive directive_m r2,
              r4 \<leftarrow> match_lit (CHR ''-'') r3,
              (d, r5) \<leftarrow> match_directive directive_d r4,
              r6 \<leftarrow> match_spaces r5,
              (H, r7) \<leftarrow> match_directive directive_H r6,
              r8 \<leftarrow> match_lit (CHR '':'') r7,
              (M, r9) \<leftarrow> match_directive directive_M r8]
      of [] \<Rightarrow> None | x # _ \<Rightarrow> Some x)"

text \<open>\<^verbatim>\<open>int(s)\<close> on a matched group: decimal digits, after blanks are stripped.\<close>

definition py_int :: "string \<Rightarrow> int" where
  "py_int s = foldl (\<lambda>a c. 10 * a + (int (of_char c) - 48)) 0 (dropWhile is_space s)"

definition strptime :: "string \<Rightarrow> error + datetime" where
  "strptime s =
     (case format_regex_match s of
        None \<Rightarrow> Inl (ValueError ''time data does not match format'')
      | Some ((Y, m, d, H, M), rest) \<Rightarrow>
          if rest \<noteq> [] then Inl (ValueError ''unconverted data remains'')
          else check_fields \<lparr>year = py_int Y, month = py_int m, day = py_int d,
                              hour = py_int H, minute = py_int M, second = 0\<rparr>)"

subsubsection \<open>isoformat and strftime('%A')\<close>

definition digit_char :: "int \<Rightarrow> char" where
  "digit_char n = char_of (48 + n)"

text \<open>\<^verbatim>\<open>%02d\<close> and \<^verbatim>\<open>%04d\<close> on the ranges the constructor admits.\<close>

definition pad2 :: "int \<Rightarrow> string" where
  "pad2 n = [digit_char (n div 10 mod 10), digit_char (n mod 10)]"

definition pad4 :: "int \<Rightarrow> string" where
  "pad4 n = [digit_char (n div 1000 mod 10), digit_char (n div 100 mod 10),
             digit_char (n div 10 mod 10), digit_char (n mod 10)]"

definition isoformat :: "datetime \<Rightarrow> string" where
  "isoformat dt = pad4 (year dt) @ ''-'' @ pad2 (month dt) @ ''-'' @ pad2 (day dt) @ ''T''
                  @ pad2 (hour dt) @ '':'' @ pad2 (minute dt) @ '':'' @ pad2 (second dt)"

text \<open>The weekday names of the C locale, which the script never changes.\<close>

definition weekday_names :: "string list" where
  "weekday_names = [''Monday'', ''Tuesday'', ''Wednesday'', ''Thursday'', ''Friday'',
                    ''Saturday'', ''Sunday'']"

definition strftime_A :: "datetime \<Rightarrow> string" where
  "strftime_A dt = weekday_names ! nat (weekday dt)"

definition upper_char :: "char \<Rightarrow> char" where
  "upper_char c = (let n = (of_char c :: nat) in if 97 \<le> n \<and> n \<le> 122 then char_of (n - 32) else c)"

definition upper :: "string \<Rightarrow> string" where
  "upper s = map upper_char s"

subsection \<open>create_weekly_recurrence\<close>

definition create_weekly_recurrence :: "datetime \<Rightarrow> string list" where
  "create_weekly_recurrence start_date =
     [''RRULE:FREQ=WEEKLY;COUNT=52;BYDAY='' @ upper (take 2 (strftime_A start_date))]"

subsection \<open>Rows and events\<close>

record event_time =
  dateTime :: string
  timeZone :: string

record calendar_event =
  summary :: pyval
  location :: pyval
  description :: pyval
  ev_start :: event_time
  ev_end :: event_time
  recurrence :: "string list"

text \<open>
  The CSV file is the list of records \<^verbatim>\<open>csv.reader\<close> yields for it, the header line
  included; a blank line is the empty record. \<^verbatim>\<open>DictReader\<close> pairs the field names
  with a record: a later duplicate name wins, and names beyond a short record get
  \<^verbatim>\<open>None\<close>. Surplus values go under the key \<^verbatim>\<open>None\<close>, which the script never reads.
\<close>

definition DictReader_row :: "string list \<Rightarrow> string list \<Rightarrow> (string \<rightharpoonup> pyval)" where
  "DictReader_row fieldnames row =
     map_of (rev (zip fieldnames
       (map PyStr row @ replicate (length fieldnames - length row) PyNone)))"

definition getitem :: "(string \<rightharpoonup> pyval) \<Rightarrow> string \<Rightarrow> error + pyval" where
  "getitem d k = (case d k of None \<Rightarrow> Inl (KeyError k) | Some v \<Rightarrow> Inr v)"

text \<open>Lines 114 to 130 of the loop body: everything before the remote call, in the
  order the lookups and the two parses happen.\<close>

definition build_event :: "(string \<rightharpoonup> pyval) \<Rightarrow> error + calendar_event" where
  "build_event row =
     and_then (getitem row ''Start Date'') (\<lambda>sd.
     and_then (getitem row ''Start Time'') (\<lambda>st.
     and_then (strptime (py_str sd @ '' '' @ py_str st)) (\<lambda>start_datetime.
     and_then (getitem row ''End Date'') (\<lambda>ed.
     and_then (getitem row ''End Time'') (\<lambda>et.
     and_then (strptime (py_str ed @ '' '' @ py_str et)) (\<lambda>end_datetime.
     and_then (getitem row ''Subject'') (\<lambda>subj.
     and_then (getitem row ''Location'') (\<lambda>loc.
     and_then (getitem row ''Description'') (\<lambda>descr.
       Inr \<lparr>summary = subj, location = loc, description = descr,
            ev_start = \<lparr>dateTime = isoformat start_datetime, timeZone = ''America/New_York''\<rparr>,
            ev_end = \<lparr>dateTime = isoformat end_datetime, timeZone = ''America/New_York''\<rparr>,
            recurrence = create_weekly_recurrence start_datetime\<rparr>)))))))))"

subsection \<open>The outside world and the trace\<close>

record credentials =
  token :: "string option"
  expiry :: "int option"
  refresh_token :: "string option"

text \<open>\<^verbatim>\<open>token.json\<close>: absent, holding a credential bundle, or present but rejected by
  \<^verbatim>\<open>from_authorized_user_file\<close>.\<close>

datatype token_file = NoFile | Holds credentials | Unreadable error

datatype level = DEBUG | INFO | ERROR

datatype message =
    CalendarIdNotSet
  | StartingAuthentication
  | AuthenticationSuccessful
  | FoundTokenFile
  | CredentialsMissingOrInvalid
  | AttemptingRefresh
  | StartingNewFlow
  | SavingCredentials
  | BuildingService
  | CsvColumns "string list option"
  | FirstRowOfCsv
  | UsingCalendarId "string option"
  | CreatingEvent calendar_event
  | EventCreated pyval
  | AnErrorOccurred error

text \<open>What the run does that can be seen from outside, in order. \<open>Refresh\<close>,
  \<open>RunLocalServer\<close>, \<open>Build\<close> and \<open>Insert\<close> are the calls that leave the process.\<close>

datatype action =
    Log level message
  | Pprint "string list"
  | Refresh credentials
  | RunLocalServer
  | WriteToken credentials
  | Build credentials
  | OpenCsv
  | Insert string calendar_event

record world =
  CALENDAR_ID :: "string option"
  token_json :: token_file
  utcnow :: int
  refresh_reply :: "credentials \<Rightarrow> error + credentials"
  run_local_server_reply :: "error + credentials"
  build_reply :: "credentials \<Rightarrow> error option"
  calendar_events_csv :: "error + string list list"
  insert_reply :: "nat \<Rightarrow> calendar_event \<Rightarrow> error + pyval"

text \<open>The credential properties the script reads, as the library computes them: a
  bundle without expiry never expires, and one expires \<open>REFRESH_THRESHOLD\<close> seconds
  early.\<close>

definition REFRESH_THRESHOLD :: int where
  "REFRESH_THRESHOLD = 225"

definition expired :: "int \<Rightarrow> credentials \<Rightarrow> bool" where
  "expired now c = (case expiry c of None \<Rightarrow> False | Some e \<Rightarrow> now \<ge> e - REFRESH_THRESHOLD)"

definition valid :: "int \<Rightarrow> credentials \<Rightarrow> bool" where
  "valid now c = (token c \<noteq> None \<and> \<not> expired now c)"

subsection \<open>authenticate_google_calendar\<close>

text \<open>The result, the content of \<^verbatim>\<open>token.json\<close> afterwards, and the trace. The service
  handle is the credential bundle it was built with.\<close>

definition build_service ::
  "world \<Rightarrow> token_file \<Rightarrow> credentials \<Rightarrow> action list
     \<Rightarrow> (error + credentials) \<times> token_file \<times> action list" where
  "build_service w file creds tr =
     (case build_reply w creds of
        Some e \<Rightarrow> (Inl e, file, tr @ [Log DEBUG BuildingService, Build creds])
      | None \<Rightarrow> (Inr creds, file, tr @ [Log DEBUG BuildingService, Build creds]))"

text \<open>Lines 80 to 82: the bundle obtained is written over \<^verbatim>\<open>token.json\<close>.\<close>

definition save_credentials ::
  "world \<Rightarrow> credentials \<Rightarrow> action list \<Rightarrow> (error + credentials) \<times> token_file \<times> action list" where
  "save_credentials w creds tr =
     build_service w (Holds creds) creds (tr @ [Log DEBUG SavingCredentials, WriteToken creds])"

text \<open>The test of line 72, on the bundle loaded (if any).\<close>

definition refreshable :: "world \<Rightarrow> credentials option \<Rightarrow> bool" where
  "refreshable w loaded =
     (case loaded of None \<Rightarrow> False
      | Some creds \<Rightarrow> expired (utcnow w) creds \<and> truthy (refresh_token creds))"

text \<open>Lines 70 to 82. A raise of \<^verbatim>\<open>creds.refresh\<close> or of the interactive flow is not
  handled here: it leaves the function.\<close>

definition acquire ::
  "world \<Rightarrow> credentials option \<Rightarrow> action list \<Rightarrow> (error + credentials) \<times> token_file \<times> action list" where
  "acquire w loaded tr =
     (case loaded of
        Some creds \<Rightarrow>
          if valid (utcnow w) creds then build_service w (token_json w) creds tr
          else if refreshable w loaded then
            (case refresh_reply w creds of
               Inl e \<Rightarrow> (Inl e, token_json w,
                  tr @ [Log DEBUG CredentialsMissingOrInvalid, Log DEBUG AttemptingRefresh,
                        Refresh creds])
             | Inr creds' \<Rightarrow> save_credentials w creds'
                  (tr @ [Log DEBUG CredentialsMissingOrInvalid, Log DEBUG AttemptingRefresh,
                         Refresh creds]))
          else
            (case run_local_server_reply w of
               Inl e \<Rightarrow> (Inl e, token_json w,
                  tr @ [Log DEBUG CredentialsMissingOrInvalid, Log DEBUG StartingNewFlow,
                        RunLocalServer])
             | Inr creds' \<Rightarrow> save_credentials w creds'
                  (tr @ [Log DEBUG CredentialsMissingOrInvalid, Log DEBUG StartingNewFlow,
                         RunLocalServer]))
      | None \<Rightarrow>
          (case run_local_server_reply w of
             Inl e \<Rightarrow> (Inl e, token_json w,
                tr @ [Log DEBUG CredentialsMissingOrInvalid, Log DEBUG StartingNewFlow,
                      RunLocalServer])
           | Inr creds' \<Rightarrow> save_credentials w creds'
                (tr @ [Log DEBUG CredentialsMissingOrInvalid, Log DEBUG StartingNewFlow,
                       RunLocalServer])))"

definition authenticate_google_calendar ::
  "world \<Rightarrow> (error + credentials) \<times> token_file \<times> action list" where
  "authenticate_google_calendar w =
     (case token_json w of
        NoFile \<Rightarrow> acquire w None []
      | Unreadable e \<Rightarrow> (Inl e, token_json w, [Log DEBUG FoundTokenFile])
      | Holds creds \<Rightarrow> acquire w (Some creds) [Log DEBUG FoundTokenFile])"

subsection \<open>add_events_from_csv\<close>

text \<open>\<^verbatim>\<open>DictReader.__next__\<close> on the records still unread: blank records are passed
  over; \<open>None\<close> is \<^verbatim>\<open>StopIteration\<close>.\<close>

definition next_record :: "string list list \<Rightarrow> (string list \<times> string list list) option" where
  "next_record recs =
     (case dropWhile (\<lambda>r. r = []) recs of [] \<Rightarrow> None | r # rest \<Rightarrow> Some (r, rest))"

text \<open>\<^verbatim>\<open>except HttpError\<close> of line 135.\<close>

fun is_HttpError :: "error \<Rightarrow> bool" where
  "is_HttpError (HttpError m) = True"
| "is_HttpError e = False"

definition emit :: "action list \<Rightarrow> 'a \<times> action list \<Rightarrow> 'a \<times> action list" where
  "emit acts r = (fst r, acts @ snd r)"

text \<open>The loop of lines 113 to 136 over the records left in the reader; \<open>n\<close> counts the
  insert calls made so far.\<close>

fun insert_rows ::
  "world \<Rightarrow> string \<Rightarrow> string list \<Rightarrow> nat \<Rightarrow> string list list \<Rightarrow> (error + unit) \<times> action list" where
  "insert_rows w calendar_id fieldnames n [] = (Inr (), [])"
| "insert_rows w calendar_id fieldnames n (r # rs) =
     (if r = [] then insert_rows w calendar_id fieldnames n rs
      else
        (case build_event (DictReader_row fieldnames r) of
           Inl e \<Rightarrow> (Inl e, [])
         | Inr event \<Rightarrow>
            (case insert_reply w n event of
               Inr created_event \<Rightarrow>
                 emit [Log INFO (CreatingEvent event), Insert calendar_id event,
                       Log INFO (EventCreated created_event)]
                   (insert_rows w calendar_id fieldnames (Suc n) rs)
             | Inl error \<Rightarrow>
                 if is_HttpError error then
                   emit [Log INFO (CreatingEvent event), Insert calendar_id event,
                         Log ERROR (AnErrorOccurred error)]
                     (insert_rows w calendar_id fieldnames (Suc n) rs)
                 else (Inl error, [Log INFO (CreatingEvent event), Insert calendar_id event]))))"

text \<open>
  Lines 93 to 111. Reading \<^verbatim>\<open>reader.fieldnames\<close> consumes the first record;
  \<^verbatim>\<open>next(reader, None)\<close> peeks at the first row; \<^verbatim>\<open>file.seek(0)\<close> rewinds, so that the
  \<^verbatim>\<open>next(reader)\<close> of line 104 reads the first non-blank record of the file again and
  drops it, raising \<^verbatim>\<open>StopIteration\<close> when there is none.
\<close>

definition add_events_from_csv :: "world \<Rightarrow> credentials \<Rightarrow> (error + unit) \<times> action list" where
  "add_events_from_csv w service =
     (case calendar_events_csv w of
        Inl e \<Rightarrow> (Inl e, [OpenCsv])
      | Inr recs \<Rightarrow>
         (case recs of
            [] \<Rightarrow> (Inl StopIteration, [OpenCsv, Log INFO (CsvColumns None)])
          | fieldnames # after_header \<Rightarrow>
              emit ([OpenCsv, Log INFO (CsvColumns (Some fieldnames))] @
                    (case next_record after_header of
                       None \<Rightarrow> []
                     | Some (first_row, _) \<Rightarrow> [Log INFO FirstRowOfCsv, Pprint first_row]))
               (case next_record recs of
                  None \<Rightarrow> (Inl StopIteration, [])
                | Some (_, rows) \<Rightarrow>
                    emit [Log INFO (UsingCalendarId (CALENDAR_ID w))]
                     (case CALENDAR_ID w of
                        None \<Rightarrow> (Inl (ValueError ''CALENDAR_ID is not set in the environment variables''), [])
                      | Some calendar_id \<Rightarrow>
                          if calendar_id = []
                          then (Inl (ValueError ''CALENDAR_ID is not set in the environment variables''), [])
                          else insert_rows w calendar_id fieldnames 0 rows))))"

subsection \<open>main\<close>

text \<open>The body of the \<^verbatim>\<open>try\<close> block, lines 140 to 149.\<close>

definition main_try :: "world \<Rightarrow> (error + unit) \<times> token_file \<times> action list" where
  "main_try w =
     (if \<not> truthy (CALENDAR_ID w) then (Inr (), token_json w, [Log ERROR CalendarIdNotSet])
      else
        (case authenticate_google_calendar w of
           (Inl e, file, tr) \<Rightarrow> (Inl e, file, Log INFO StartingAuthentication # tr)
         | (Inr service, file, tr) \<Rightarrow>
             (case add_events_from_csv w service of
                (res, tr') \<Rightarrow>
                  (res, file,
                   Log INFO StartingAuthentication # tr @ [Log INFO AuthenticationSuccessful] @ tr'))))"

text \<open>\<^verbatim>\<open>except Exception\<close>, lines 150 and 151: the error is logged and \<^verbatim>\<open>main\<close>
  returns.\<close>

definition main :: "world \<Rightarrow> (error + unit) \<times> token_file \<times> action list" where
  "main w =
     (case main_try w of
        (Inl e, file, tr) \<Rightarrow> (Inr (), file, tr @ [Log ERROR (AnErrorOccurred e)])
      | (Inr u, file, tr) \<Rightarrow> (Inr u, file, tr))"

text \<open>The insert calls of a trace, in order, and the calls that use the network.\<close>

fun inserts :: "action list \<Rightarrow> (string \<times> calendar_event) list" where
  "inserts [] = []"
| "inserts (Insert c e # tr) = (c, e) # inserts tr"
| "inserts (a # tr) = inserts tr"

fun is_network :: "action \<Rightarrow> bool" where
  "is_network (Refresh c) = True"
| "is_network RunLocalServer = True"
| "is_network (Build c) = True"
| "is_network (Insert c e) = True"
| "is_network a = False"

fun is_Refresh :: "action \<Rightarrow> bool" where
  "is_Refresh (Refresh c) = True"
| "is_Refresh a = False"

text \<open>The bundles written to \<^verbatim>\<open>token.json\<close>, and the bundles that the refresh and grant
  calls of a trace returned (the replacements of the in-memory credential).\<close>

fun written :: "action list \<Rightarrow> credentials list" where
  "written [] = []"
| "written (WriteToken c # tr) = c # written tr"
| "written (a # tr) = written tr"

fun replacements :: "world \<Rightarrow> action list \<Rightarrow> credentials list" where
  "replacements w [] = []"
| "replacements w (Refresh c # tr) =
     (case refresh_reply w c of Inl e \<Rightarrow> [] | Inr c' \<Rightarrow> [c']) @ replacements w tr"
| "replacements w (RunLocalServer # tr) =
     (case run_local_server_reply w of Inl e \<Rightarrow> [] | Inr c' \<Rightarrow> [c']) @ replacements w tr"
| "replacements w (a # tr) = replacements w tr"

text \<open>The errors logged at level ERROR and the links logged after a created event.\<close>

fun error_logs :: "action list \<Rightarrow> error list" where
  "error_logs [] = []"
| "error_logs (Log ERROR (AnErrorOccurred e) # tr) = e # error_logs tr"
| "error_logs (a # tr) = error_logs tr"

fun created_logs :: "action list \<Rightarrow> pyval list" where
  "created_logs [] = []"
| "created_logs (Log INFO (EventCreated v) # tr) = v # created_logs tr"
| "created_logs (a # tr) = created_logs tr"

subsection \<open>Vocabulary of the specification\<close>

text \<open>The data rows of a table are its non-blank records after the header; \<open>events_of\<close>
  says that every data row is valid and names the events built from them, in order.\<close>

definition data_rows :: "string list list \<Rightarrow> string list list" where
  "data_rows recs = filter (\<lambda>r. r \<noteq> []) recs"

definition events_of :: "string list \<Rightarrow> string list list \<Rightarrow> calendar_event list \<Rightarrow> bool" where
  "events_of fieldnames recs evs =
     list_all2 (\<lambda>r ev. build_event (DictReader_row fieldnames r) = Inr ev) (data_rows recs) evs"

text \<open>What the service answers to the insert calls for a list of events, the first call
  being number \<open>n\<close>; an answer is at the level of the API when it is a created event or
  an \<open>HttpError\<close>.\<close>

fun replies :: "world \<Rightarrow> nat \<Rightarrow> calendar_event list \<Rightarrow> (error + pyval) list" where
  "replies w n [] = []"
| "replies w n (ev # evs) = insert_reply w n ev # replies w (Suc n) evs"

definition api_level :: "error + pyval \<Rightarrow> bool" where
  "api_level r = (case r of Inl e \<Rightarrow> is_HttpError e | Inr v \<Rightarrow> True)"

text \<open>The number of insert calls the loop makes, given the answers the service would
  give: it goes on after an answer at the level of the API, and the first call answered
  by any other exception is the last one made.\<close>

fun calls_made :: "(error + pyval) list \<Rightarrow> nat" where
  "calls_made [] = 0"
| "calls_made (r # rs) = (if api_level r then Suc (calls_made rs) else 1)"

text \<open>Weekdays, the two-letter codes of the recurrence rule syntax, and the calendar's
  successor of a date.\<close>

datatype day_name = Monday | Tuesday | Wednesday | Thursday | Friday | Saturday | Sunday

fun standard_code :: "day_name \<Rightarrow> string" where
  "standard_code Monday = ''MO''"
| "standard_code Tuesday = ''TU''"
| "standard_code Wednesday = ''WE''"
| "standard_code Thursday = ''TH''"
| "standard_code Friday = ''FR''"
| "standard_code Saturday = ''SA''"
| "standard_code Sunday = ''SU''"

fun day_after :: "day_name \<Rightarrow> day_name" where
  "day_after Monday = Tuesday"
| "day_after Tuesday = Wednesday"
| "day_after Wednesday = Thursday"
| "day_after Thursday = Friday"
| "day_after Friday = Saturday"
| "day_after Saturday = Sunday"
| "day_after Sunday = Monday"

definition day_of_week :: "datetime \<Rightarrow> day_name" where
  "day_of_week dt =
     [Monday, Tuesday, Wednesday, Thursday, Friday, Saturday, Sunday] ! nat (weekday dt)"

definition tomorrow :: "datetime \<Rightarrow> datetime" where
  "tomorrow dt =
     (if day dt < days_in_month (year dt) (month dt) then dt\<lparr>day := day dt + 1\<rparr>
      else if month dt < 12 then dt\<lparr>month := month dt + 1, day := 1\<rparr>
      else dt\<lparr>year := year dt + 1, month := 1, day := 1\<rparr>)"

subsection \<open>Concrete runs\<close>

definition standard_header :: "string list" where
  "standard_header = [''Subject'', ''Start Date'', ''Start Time'', ''End Date'', ''End Time'',
                      ''Description'', ''Location'']"

definition exercise_row :: "string list" where
  "exercise_row = [''Exercise'', ''2024-10-14'', ''07:00'', ''2024-10-14'', ''08:00'',
                   ''Workout'', ''Gym'']"

definition reading_row :: "string list" where
  "reading_row = [''Reading'', ''2024-10-15'', ''21:30'', ''2024-10-15'', ''22:00'',
                  ''Novel'', ''Home'']"

definition malformed_row :: "string list" where
  "malformed_row = [''Dentist'', ''2024-02-30'', ''09:00'', ''2024-02-30'', ''10:00'',
                    ''Checkup'', ''Clinic'']"

definition overnight_row :: "string list" where
  "overnight_row = [''Night shift'', ''2024-10-15'', ''22:00'', ''2024-10-16'', ''06:00'',
                    ''Ward 3'', ''Hospital'']"

definition overnight_start :: datetime where
  "overnight_start = \<lparr>year = 2024, month = 10, day = 15, hour = 22, minute = 0, second = 0\<rparr>"

definition overnight_event :: calendar_event where
  "overnight_event =
     \<lparr>summary = PyStr ''Night shift'', location = PyStr ''Hospital'',
      description = PyStr ''Ward 3'',
      ev_start = \<lparr>dateTime = ''2024-10-15T22:00:00'', timeZone = ''America/New_York''\<rparr>,
      ev_end = \<lparr>dateTime = ''2024-10-16T06:00:00'', timeZone = ''America/New_York''\<rparr>,
      recurrence = [''RRULE:FREQ=WEEKLY;COUNT=52;BYDAY=TU'']\<rparr>"

definition exercise_event :: calendar_event where
  "exercise_event =
     \<lparr>summary = PyStr ''Exercise'', location = PyStr ''Gym'', description = PyStr ''Workout'',
      ev_start = \<lparr>dateTime = ''2024-10-14T07:00:00'', timeZone = ''America/New_York''\<rparr>,
      ev_end = \<lparr>dateTime = ''2024-10-14T08:00:00'', timeZone = ''America/New_York''\<rparr>,
      recurrence = [''RRULE:FREQ=WEEKLY;COUNT=52;BYDAY=MO'']\<rparr>"

definition reading_event :: calendar_event where
  "reading_event =
     \<lparr>summary = PyStr ''Reading'', location = PyStr ''Home'', description = PyStr ''Novel'',
      ev_start = \<lparr>dateTime = ''2024-10-15T21:30:00'', timeZone = ''America/New_York''\<rparr>,
      ev_end = \<lparr>dateTime = ''2024-10-15T22:00:00'', timeZone = ''America/New_York''\<rparr>,
      recurrence = [''RRULE:FREQ=WEEKLY;COUNT=52;BYDAY=TU'']\<rparr>"

definition monday_start :: datetime where
  "monday_start = \<lparr>year = 2024, month = 10, day = 14, hour = 7, minute = 0, second = 0\<rparr>"

definition tuesday_start :: datetime where
  "tuesday_start = \<lparr>year = 2024, month = 10, day = 15, hour = 21, minute = 30, second = 0\<rparr>"

definition granted :: credentials where
  "granted = \<lparr>token = Some ''fresh'', expiry = Some 9000, refresh_token = Some ''r1''\<rparr>"

definition stale :: credentials where
  "stale = \<lparr>token = Some ''old'', expiry = Some 1000, refresh_token = Some ''r0''\<rparr>"

definition renewed :: credentials where
  "renewed = \<lparr>token = Some ''renewed'', expiry = Some 9000, refresh_token = Some ''r0''\<rparr>"

definition tokenless :: credentials where
  "tokenless = \<lparr>token = None, expiry = Some 9000, refresh_token = Some ''r0''\<rparr>"

text \<open>No token file, a grant that succeeds, a service that accepts every event, and a
  table with the one row of the module's docstring.\<close>

definition example_world :: world where
  "example_world =
     \<lparr>CALENDAR_ID = Some ''primary'', token_json = NoFile, utcnow = 2000,
      refresh_reply = (\<lambda>c. Inr renewed),
      run_local_server_reply = Inr granted,
      build_reply = (\<lambda>c. None),
      calendar_events_csv = Inr [standard_header, exercise_row],
      insert_reply = (\<lambda>n e. Inr (PyStr ''link''))\<rparr>"

definition world_without_id :: world where
  "world_without_id = example_world\<lparr>CALENDAR_ID := None\<rparr>"

definition world_empty_id :: world where
  "world_empty_id = example_world\<lparr>CALENDAR_ID := Some []\<rparr>"

text \<open>An expired token whose refresh the provider rejects, although a grant would
  succeed; the same token with a provider that renews it; a bundle without access token
  that is not expired; a token that is still valid; a grant that fails.\<close>

definition world_revoked :: world where
  "world_revoked = example_world\<lparr>token_json := Holds stale,
     refresh_reply := (\<lambda>c. Inl (LibraryError ''invalid_grant''))\<rparr>"

definition world_stale :: world where
  "world_stale = example_world\<lparr>token_json := Holds stale\<rparr>"

definition world_tokenless :: world where
  "world_tokenless = example_world\<lparr>token_json := Holds tokenless\<rparr>"

definition world_valid :: world where
  "world_valid = example_world\<lparr>token_json := Holds granted\<rparr>"


text \<open>Tables of three data rows: the second malformed; all valid, with the service
  rejecting the second call; and a table with a blank line between two rows.\<close>

definition world_malformed :: world where
  "world_malformed = example_world\<lparr>calendar_events_csv :=
     Inr [standard_header, exercise_row, malformed_row, reading_row]\<rparr>"

definition world_rejecting :: world where
  "world_rejecting = example_world\<lparr>calendar_events_csv :=
     Inr [standard_header, exercise_row, reading_row, exercise_row],
     insert_reply := (\<lambda>n e. if n = 1 then Inl (HttpError ''403'') else Inr (PyStr ''link''))\<rparr>"

text \<open>Three valid rows, with the connection lost during the second insert call.\<close>

definition world_dropped :: world where
  "world_dropped = example_world\<lparr>calendar_events_csv :=
     Inr [standard_header, exercise_row, reading_row, exercise_row],
     insert_reply := (\<lambda>n e. if n = 1 then Inl (LibraryError ''connection reset'')
                             else Inr (PyStr ''link''))\<rparr>"

definition world_two_rows :: world where
  "world_two_rows = example_world\<lparr>calendar_events_csv :=
     Inr [standard_header, exercise_row, [], reading_row]\<rparr>"


section \<open>Properties\<close>

subsection \<open>Traces\<close>

lemma inserts_append [simp]: "inserts (a @ b) = inserts a @ inserts b"
  by (induction a rule: inserts.induct) auto

lemma error_logs_append [simp]: "error_logs (a @ b) = error_logs a @ error_logs b"
  by (induction a rule: error_logs.induct) auto

lemma created_logs_append [simp]: "created_logs (a @ b) = created_logs a @ created_logs b"
  by (induction a rule: created_logs.induct) auto

lemma written_append [simp]: "written (a @ b) = written a @ written b"
  by (induction a rule: written.induct) auto

lemma replacements_append [simp]: "replacements w (a @ b) = replacements w a @ replacements w b"
  by (induction w a rule: replacements.induct) auto

lemma fst_emit [simp]: "fst (emit acts r) = fst r"
  by (simp add: emit_def)

lemma snd_emit [simp]: "snd (emit acts r) = acts @ snd r"
  by (simp add: emit_def)

subsection \<open>The entry point and the calendar identifier\<close>

lemma main_try_without_calendar_id:
  "\<not> truthy (CALENDAR_ID w) \<Longrightarrow> main_try w = (Inr (), token_json w, [Log ERROR CalendarIdNotSet])"
  by (simp add: main_try_def)

text \<open>
  C7, as amended. When \<^verbatim>\<open>CALENDAR_ID\<close> is absent or empty, \<^verbatim>\<open>main\<close> logs one error
  line and returns normally: no exception of any kind leaves it, the token file is left
  as it was, and nothing else happens.
\<close>

theorem main_returns_without_calendar_id:
  "\<not> truthy (CALENDAR_ID w) \<Longrightarrow>
   main w = (Inr (), token_json w, [Log ERROR CalendarIdNotSet])"
  by (simp add: main_def main_try_without_calendar_id)

theorem main_returns_without_calendar_id_witness:
  "\<not> truthy (CALENDAR_ID world_empty_id) \<and>
   main world_empty_id = (Inr (), NoFile, [Log ERROR CalendarIdNotSet])"
proof -
  have h: "\<not> truthy (CALENDAR_ID world_empty_id)"
    by (simp add: truthy_def world_empty_id_def example_world_def)
  show ?thesis
    using h main_returns_without_calendar_id [OF h]
    by (simp add: world_empty_id_def example_world_def)
qed

text \<open>C7, as stated, fails: with the variable absent the run ends as a normal return,
  not with a configuration error.\<close>

theorem config_error_counterexample:
  "fst (main world_without_id) = Inr () \<and> error_logs (snd (snd (main world_without_id))) = []"
  by (simp add: main_def main_try_def truthy_def world_without_id_def example_world_def)

text \<open>
  C8. When \<^verbatim>\<open>CALENDAR_ID\<close> is missing (absent or empty), the trace of the run holds no
  call that uses the network: no refresh, no interactive grant, no service construction
  and no insert.
\<close>

theorem no_network_without_calendar_id:
  "\<not> truthy (CALENDAR_ID w) \<Longrightarrow> filter is_network (snd (snd (main w))) = []"
  by (simp add: main_def main_try_without_calendar_id)

theorem no_network_without_calendar_id_witness:
  "CALENDAR_ID world_without_id = None \<and>
   filter is_network (snd (snd (main world_without_id))) = []"
proof -
  have h: "\<not> truthy (CALENDAR_ID world_without_id)"
    by (simp add: truthy_def world_without_id_def example_world_def)
  show ?thesis
    using no_network_without_calendar_id [OF h]
    by (simp add: world_without_id_def example_world_def)
qed



subsection \<open>Authentication\<close>

lemma authenticate_refreshable:
  "token_json w = Holds c \<Longrightarrow> expired (utcnow w) c \<Longrightarrow> truthy (refresh_token c) \<Longrightarrow>
   authenticate_google_calendar w =
     (case refresh_reply w c of
        Inl e \<Rightarrow> (Inl e, token_json w,
          [Log DEBUG FoundTokenFile, Log DEBUG CredentialsMissingOrInvalid,
           Log DEBUG AttemptingRefresh, Refresh c])
      | Inr c' \<Rightarrow> save_credentials w c'
          [Log DEBUG FoundTokenFile, Log DEBUG CredentialsMissingOrInvalid,
           Log DEBUG AttemptingRefresh, Refresh c])"
  by (simp add: authenticate_google_calendar_def acquire_def valid_def refreshable_def
      split: sum.splits)

text \<open>
  C2, as amended. When the loaded token is expired (hence invalid) and carries a refresh
  token, exactly one refresh call is made and no interactive flow is started. If that
  call fails, the error leaves \<^verbatim>\<open>authenticate_google_calendar\<close> at once: the trace ends
  with the refresh call and \<^verbatim>\<open>token.json\<close> is untouched; \<^verbatim>\<open>main\<close> then logs the error
  and returns, and nothing is imported.
\<close>

theorem refresh_attempted_once:
  assumes "token_json w = Holds c" "expired (utcnow w) c" "truthy (refresh_token c)"
  shows "length (filter is_Refresh (snd (snd (authenticate_google_calendar w)))) = 1
       \<and> RunLocalServer \<notin> set (snd (snd (authenticate_google_calendar w)))
       \<and> (\<forall>e. refresh_reply w c = Inl e \<longrightarrow>
             authenticate_google_calendar w =
               (Inl e, token_json w,
                [Log DEBUG FoundTokenFile, Log DEBUG CredentialsMissingOrInvalid,
                 Log DEBUG AttemptingRefresh, Refresh c])
             \<and> (truthy (CALENDAR_ID w) \<longrightarrow>
                  main w =
                    (Inr (), token_json w,
                     [Log INFO StartingAuthentication, Log DEBUG FoundTokenFile,
                      Log DEBUG CredentialsMissingOrInvalid, Log DEBUG AttemptingRefresh,
                      Refresh c, Log ERROR (AnErrorOccurred e)])))"
  using assms
  by (auto simp: authenticate_refreshable save_credentials_def build_service_def
      main_def main_try_def split: sum.splits option.splits)

theorem refresh_attempted_once_witness:
  "token_json world_revoked = Holds stale \<and> expired (utcnow world_revoked) stale
   \<and> truthy (refresh_token stale)
   \<and> refresh_reply world_revoked stale = Inl (LibraryError ''invalid_grant'')
   \<and> authenticate_google_calendar world_revoked =
       (Inl (LibraryError ''invalid_grant''), Holds stale,
        [Log DEBUG FoundTokenFile, Log DEBUG CredentialsMissingOrInvalid,
         Log DEBUG AttemptingRefresh, Refresh stale])"
proof -
  have h1: "token_json world_revoked = Holds stale"
    by (simp add: world_revoked_def example_world_def)
  have h2: "expired (utcnow world_revoked) stale"
    by (simp add: world_revoked_def example_world_def expired_def stale_def REFRESH_THRESHOLD_def)
  have h3: "truthy (refresh_token stale)"
    by (simp add: truthy_def stale_def)
  have h4: "refresh_reply world_revoked stale = Inl (LibraryError ''invalid_grant'')"
    by (simp add: world_revoked_def example_world_def)
  show ?thesis
    using h1 h2 h3 h4 refresh_attempted_once [OF h1 h2 h3] by simp
qed

text \<open>C2, as stated, fails twice. A failed refresh is not followed by the interactive
  flow, which would have succeeded: the run logs the error and ends. And an invalid
  bundle that is not expired goes to the interactive flow with no refresh call at all,
  although it has a refresh token.\<close>

theorem refresh_failure_counterexample:
  "main world_revoked =
     (Inr (), Holds stale,
      [Log INFO StartingAuthentication, Log DEBUG FoundTokenFile,
       Log DEBUG CredentialsMissingOrInvalid, Log DEBUG AttemptingRefresh, Refresh stale,
       Log ERROR (AnErrorOccurred (LibraryError ''invalid_grant''))])
   \<and> run_local_server_reply world_revoked = Inr granted
   \<and> \<not> valid (utcnow world_tokenless) tokenless
   \<and> truthy (refresh_token tokenless)
   \<and> filter is_Refresh (snd (snd (authenticate_google_calendar world_tokenless))) = []
   \<and> RunLocalServer \<in> set (snd (snd (authenticate_google_calendar world_tokenless)))"
  by (simp add: main_def main_try_def truthy_def world_revoked_def world_tokenless_def
      example_world_def stale_def tokenless_def granted_def authenticate_google_calendar_def
      acquire_def valid_def expired_def REFRESH_THRESHOLD_def refreshable_def
      save_credentials_def build_service_def)

lemma authenticate_written:
  "written (snd (snd (authenticate_google_calendar w))) =
     replacements w (snd (snd (authenticate_google_calendar w)))
   \<and> fst (snd (authenticate_google_calendar w)) =
       (case written (snd (snd (authenticate_google_calendar w))) of
          [] \<Rightarrow> token_json w | c # cs \<Rightarrow> Holds (last (c # cs)))"
  by (auto simp: authenticate_google_calendar_def acquire_def save_credentials_def
      build_service_def split: sum.splits option.splits token_file.splits)

lemma authenticate_valid:
  "token_json w = Holds c \<Longrightarrow> valid (utcnow w) c \<Longrightarrow>
   written (snd (snd (authenticate_google_calendar w))) = []"
  by (auto simp: authenticate_google_calendar_def acquire_def build_service_def
      split: option.splits)

lemma insert_rows_no_credentials:
  "written (snd (insert_rows w cid fns n rs)) = []
   \<and> replacements w (snd (insert_rows w cid fns n rs)) = []"
  by (induction w cid fns n rs rule: insert_rows.induct)
     (auto split: sum.splits)

lemma add_events_no_credentials:
  "written (snd (add_events_from_csv w service)) = []
   \<and> replacements w (snd (add_events_from_csv w service)) = []"
  by (auto simp: add_events_from_csv_def insert_rows_no_credentials
      split: sum.splits list.splits option.splits)

lemma main_credentials:
  assumes "truthy (CALENDAR_ID w)"
  shows "written (snd (snd (main w))) = written (snd (snd (authenticate_google_calendar w)))
       \<and> replacements w (snd (snd (main w))) =
           replacements w (snd (snd (authenticate_google_calendar w)))
       \<and> fst (snd (main w)) = fst (snd (authenticate_google_calendar w))"
proof -
  obtain res tf tr where a: "authenticate_google_calendar w = (res, tf, tr)"
    by (cases "authenticate_google_calendar w" rule: prod_cases3)
  show ?thesis
  proof (cases res)
    case (Inl e)
    with a assms show ?thesis by (simp add: main_def main_try_def)
  next
    case (Inr service)
    obtain r tr' where b: "add_events_from_csv w service = (r, tr')"
      by (cases "add_events_from_csv w service")
    with add_events_no_credentials [of w service]
    have "written tr' = []" "replacements w tr' = []" by simp_all
    with a b Inr assms show ?thesis
      by (cases r) (simp_all add: main_def main_try_def)
  qed
qed

text \<open>
  C9. Over a whole run, the bundles written to \<^verbatim>\<open>token.json\<close> are exactly the bundles
  returned by a successful refresh or a successful interactive grant, in the same order;
  the file ends holding the last of them, or is left as it was when there is none; and
  when the loaded token is valid nothing is written and the file is unchanged.
\<close>

theorem token_file_written_iff_replaced:
  "written (snd (snd (main w))) = replacements w (snd (snd (main w)))
   \<and> fst (snd (main w)) =
       (case written (snd (snd (main w))) of
          [] \<Rightarrow> token_json w | c # cs \<Rightarrow> Holds (last (c # cs)))
   \<and> (\<forall>c. token_json w = Holds c \<and> valid (utcnow w) c \<longrightarrow>
         written (snd (snd (main w))) = [] \<and> fst (snd (main w)) = token_json w)"
proof (cases "truthy (CALENDAR_ID w)")
  case True
  from main_credentials [OF True] authenticate_written [of w] authenticate_valid [of w]
  show ?thesis by auto
next
  case False
  then show ?thesis by (simp add: main_def main_try_without_calendar_id)
qed

theorem token_file_written_iff_replaced_witness:
  "token_json world_valid = Holds granted \<and> valid (utcnow world_valid) granted
   \<and> written (snd (snd (main world_valid))) = []
   \<and> fst (snd (main world_valid)) = Holds granted"
proof -
  have h: "token_json world_valid = Holds granted \<and> valid (utcnow world_valid) granted"
    by (simp add: world_valid_def example_world_def valid_def expired_def granted_def
        REFRESH_THRESHOLD_def)
  note t = token_file_written_iff_replaced [of world_valid, THEN conjunct2, THEN conjunct2,
      rule_format, of granted, OF h]
  from h t show ?thesis by simp
qed

subsection \<open>Weekdays and the recurrence rule\<close>

lemma weekday_range: "0 \<le> weekday dt \<and> weekday dt < 7"
  by (simp add: weekday_def)

lemma weekday_cases:
  "weekday dt = 0 \<or> weekday dt = 1 \<or> weekday dt = 2 \<or> weekday dt = 3 \<or> weekday dt = 4
   \<or> weekday dt = 5 \<or> weekday dt = 6"
  using weekday_range [of dt] by presburger

lemma upper_names:
  "map (\<lambda>n. upper (take 2 n)) weekday_names = [''MO'', ''TU'', ''WE'', ''TH'', ''FR'', ''SA'', ''SU'']"
  by code_simp

lemma byday_code: "upper (take 2 (strftime_A dt)) = standard_code (day_of_week dt)"
proof -
  have "length weekday_names = 7"
    by (simp add: weekday_names_def)
  with weekday_range [of dt] have n: "nat (weekday dt) < length weekday_names"
    by linarith
  have "upper (take 2 (strftime_A dt)) = map (\<lambda>n. upper (take 2 n)) weekday_names ! nat (weekday dt)"
    unfolding strftime_A_def using n by simp
  also have "\<dots> = standard_code (day_of_week dt)"
    unfolding upper_names day_of_week_def using weekday_cases [of dt] by auto
  finally show ?thesis .
qed

lemma create_weekly_recurrence_code:
  "create_weekly_recurrence dt = [''RRULE:FREQ=WEEKLY;COUNT=52;BYDAY='' @ standard_code (day_of_week dt)]"
  by (simp add: create_weekly_recurrence_def byday_code)

lemma month_cases:
  "1 \<le> m \<Longrightarrow> m \<le> (12::int) \<Longrightarrow>
   m = 1 \<or> m = 2 \<or> m = 3 \<or> m = 4 \<or> m = 5 \<or> m = 6 \<or> m = 7 \<or> m = 8 \<or> m = 9 \<or> m = 10 \<or> m = 11 \<or> m = 12"
  by presburger

lemma days_before_next_month:
  "1 \<le> m \<Longrightarrow> m < 12 \<Longrightarrow> days_before_month y (m + 1) = days_before_month y m + days_in_month y m"
  using month_cases [of m]
  by (auto simp: days_before_month_def days_in_month_def DAYS_BEFORE_MONTH_def DAYS_IN_MONTH_def)

lemma div_step:
  fixes y k :: int
  assumes "0 < k"
  shows "y div k - (y - 1) div k = (if y mod k = 0 then 1 else 0)"
proof (cases "y mod k = 0")
  case True
  have "y - 1 = k * (y div k - 1) + (k - 1)"
    using True by (simp add: algebra_simps mult_div_mod_eq [symmetric] dvd_eq_mod_eq_0 [symmetric])
  then have "(y - 1) div k = y div k - 1"
    using assms by (intro int_div_pos_eq [where r = "k - 1"]) simp_all
  with True show ?thesis by simp
next
  case False
  with assms have r: "1 \<le> y mod k" "y mod k < k"
    using pos_mod_sign [of k y] pos_mod_bound [of k y] by linarith+
  have "y - 1 = k * (y div k) + (y mod k - 1)"
    by simp
  then have "(y - 1) div k = y div k"
    using r by (intro int_div_pos_eq [where r = "y mod k - 1"]) simp_all
  with False show ?thesis by simp
qed

lemma mod_400_100: "(y::int) mod 400 = 0 \<Longrightarrow> y mod 100 = 0"
  using mod_mod_cancel [of 100 400 y] by simp

lemma mod_100_4: "(y::int) mod 100 = 0 \<Longrightarrow> y mod 4 = 0"
  using mod_mod_cancel [of 4 100 y] by simp

lemma leap_indicator:
  "(if is_leap y then 1 else 0) =
     (if y mod 4 = 0 then 1 else 0) - (if y mod 100 = 0 then 1 else 0)
       + (if y mod 400 = 0 then 1 else (0::int))"
proof (cases "y mod 400 = 0")
  case True
  with mod_400_100 [of y] mod_100_4 [of y] show ?thesis by (simp add: is_leap_def)
next
  case False
  show ?thesis
  proof (cases "y mod 100 = 0")
    case True
    with False mod_100_4 [of y] show ?thesis by (simp add: is_leap_def)
  next
    case n: False
    with False show ?thesis by (simp add: is_leap_def)
  qed
qed

lemma days_before_next_year:
  "days_before_year (y + 1) = days_before_year y + 365 + (if is_leap y then 1 else 0)"
proof -
  have a: "y div 4 - (y - 1) div 4 = (if y mod 4 = 0 then 1 else 0)"
    by (rule div_step) simp
  have b: "y div 100 - (y - 1) div 100 = (if y mod 100 = 0 then 1 else 0)"
    by (rule div_step) simp
  have c: "y div 400 - (y - 1) div 400 = (if y mod 400 = 0 then 1 else 0)"
    by (rule div_step) simp
  have "days_before_year (y + 1) = y * 365 + y div 4 - y div 100 + y div 400"
    by (simp add: days_before_year_def)
  moreover have "days_before_year y =
      y * 365 - 365 + (y - 1) div 4 - (y - 1) div 100 + (y - 1) div 400"
    by (simp add: days_before_year_def left_diff_distrib)
  ultimately show ?thesis
    unfolding leap_indicator [of y] a [symmetric] b [symmetric] c [symmetric] by linarith
qed

lemma toordinal_tomorrow:
  assumes "1 \<le> month dt" "month dt \<le> 12" "1 \<le> day dt" "day dt \<le> days_in_month (year dt) (month dt)"
  shows "toordinal (tomorrow dt) = toordinal dt + 1"
proof -
  consider (d) "day dt < days_in_month (year dt) (month dt)"
    | (m) "day dt = days_in_month (year dt) (month dt)" "month dt < 12"
    | (y) "day dt = days_in_month (year dt) (month dt)" "month dt = 12"
    using assms by linarith
  then show ?thesis
  proof cases
    case d
    then show ?thesis by (simp add: tomorrow_def toordinal_def ymd2ord_def)
  next
    case m
    then show ?thesis
      using assms days_before_next_month [of "month dt" "year dt"]
      by (simp add: tomorrow_def toordinal_def ymd2ord_def)
  next
    case y
    then show ?thesis
      using days_before_next_year [of "year dt"]
      by (simp add: tomorrow_def toordinal_def ymd2ord_def days_before_month_def days_in_month_def
          DAYS_BEFORE_MONTH_def DAYS_IN_MONTH_def)
  qed
qed

lemma day_of_week_tomorrow:
  assumes "check_fields dt = Inr dt'"
  shows "day_of_week (tomorrow dt) = day_after (day_of_week dt)"
proof -
  from assms have v: "1 \<le> month dt" "month dt \<le> 12" "1 \<le> day dt"
    "day dt \<le> days_in_month (year dt) (month dt)"
    by (auto simp: check_fields_def split: if_splits)
  have "weekday (tomorrow dt) = (weekday dt + 1) mod 7"
    unfolding weekday_def toordinal_tomorrow [OF v] by (simp add: mod_simps)
  with weekday_cases [of dt] show ?thesis
    by (auto simp: day_of_week_def)
qed

lemma day_of_week_anchor:
  "day_of_week \<lparr>year = 2024, month = 10, day = 14, hour = 7, minute = 0, second = 0\<rparr> = Monday"
  by (simp add: day_of_week_def weekday_def toordinal_def ymd2ord_def days_before_year_def
      days_before_month_def DAYS_BEFORE_MONTH_def is_leap_def)

lemma check_fields_Inr: "check_fields a = Inr b \<Longrightarrow> b = a"
  by (simp add: check_fields_def split: if_splits)

lemma strptime_checked:
  assumes "strptime s = Inr dt"
  shows "check_fields dt = Inr dt"
proof -
  from assms obtain dt0 where c: "check_fields dt0 = Inr dt"
    by (auto simp: strptime_def split: option.splits if_splits)
  with check_fields_Inr [OF c] show ?thesis by simp
qed

lemma build_event_recurrence:
  assumes "row ''Start Date'' = Some sd" "row ''Start Time'' = Some st"
    and "strptime (py_str sd @ '' '' @ py_str st) = Inr dt"
    and "build_event row = Inr ev"
  shows "recurrence ev = create_weekly_recurrence dt"
  using assms
  by (auto simp: build_event_def getitem_def and_then_def split: option.splits sum.splits)

text \<open>
  C1, as amended. For every row whose start date and time parse and for which an event
  is built, the recurrence of that event is the one-element list holding
  \<^verbatim>\<open>RRULE:FREQ=WEEKLY;COUNT=52;BYDAY=\<close> followed by the standard two-letter code of the
  weekday of the row's start date (not of its end date); that code is the first two
  letters of the weekday's name, uppercased; and the weekday is the calendar's: it
  moves to the next day of the week when the date moves to the next day (with
  \<open>day_of_week_anchor\<close>: 2024-10-14 is a Monday, this fixes it for every date).
\<close>

theorem recurrence_rule_of_start:
  assumes "row ''Start Date'' = Some sd" "row ''Start Time'' = Some st"
    and "strptime (py_str sd @ '' '' @ py_str st) = Inr dt"
    and "build_event row = Inr ev"
  shows "recurrence ev =
           [''RRULE:FREQ=WEEKLY;COUNT=52;BYDAY='' @ standard_code (day_of_week dt)]
       \<and> create_weekly_recurrence dt =
           [''RRULE:FREQ=WEEKLY;COUNT=52;BYDAY='' @ standard_code (day_of_week dt)]
       \<and> upper (take 2 (strftime_A dt)) = standard_code (day_of_week dt)
       \<and> day_of_week (tomorrow dt) = day_after (day_of_week dt)"
  using day_of_week_tomorrow [OF strptime_checked [OF assms(3)]]
    build_event_recurrence [OF assms]
  by (simp add: create_weekly_recurrence_def byday_code)

theorem recurrence_rule_of_start_witness:
  "strptime ''2024-10-15 22:00'' = Inr overnight_start
   \<and> day_of_week overnight_start = Tuesday
   \<and> build_event (DictReader_row standard_header overnight_row) = Inr overnight_event
   \<and> dateTime (ev_end overnight_event) = ''2024-10-16T06:00:00''
   \<and> recurrence overnight_event = [''RRULE:FREQ=WEEKLY;COUNT=52;BYDAY=TU'']"
proof -
  have f1: "DictReader_row standard_header overnight_row ''Start Date'' = Some (PyStr ''2024-10-15'')"
    by code_simp
  have f2: "DictReader_row standard_header overnight_row ''Start Time'' = Some (PyStr ''22:00'')"
    by code_simp
  have p: "strptime ''2024-10-15 22:00'' = Inr overnight_start"
    by code_simp
  have h: "strptime (py_str (PyStr ''2024-10-15'') @ '' '' @ py_str (PyStr ''22:00'')) =
             Inr overnight_start"
    using p by (simp add: py_str_def)
  have b: "build_event (DictReader_row standard_header overnight_row) = Inr overnight_event"
    by code_simp
  have d: "day_of_week overnight_start = Tuesday"
    by code_simp
  have e: "dateTime (ev_end overnight_event) = ''2024-10-16T06:00:00''"
    by (simp add: overnight_event_def)
  show ?thesis
    using p b d e recurrence_rule_of_start [OF f1 f2 h b] by simp
qed

text \<open>C1, as stated, fails: the string derived for a Monday start is not
  \<^verbatim>\<open>FREQ=WEEKLY;COUNT=52;BYDAY=MO\<close>; it carries the prefix \<^verbatim>\<open>RRULE:\<close>, and so does the
  recurrence of an event built from a row.\<close>

theorem recurrence_prefix_counterexample:
  "strptime ''2024-10-14 07:00'' = Inr monday_start
   \<and> create_weekly_recurrence monday_start \<noteq> [''FREQ=WEEKLY;COUNT=52;BYDAY=MO'']
   \<and> create_weekly_recurrence monday_start = [''RRULE:FREQ=WEEKLY;COUNT=52;BYDAY=MO'']
   \<and> build_event (DictReader_row standard_header overnight_row) = Inr overnight_event
   \<and> recurrence overnight_event \<noteq> [''FREQ=WEEKLY;COUNT=52;BYDAY=TU'']"
  by code_simp

subsection \<open>The row of the module's docstring\<close>

text \<open>
  C6, as amended. The row \<^verbatim>\<open>Exercise,2024-10-14,07:00,2024-10-14,08:00,Workout,Gym\<close>
  under the standard header yields the event with start \<^verbatim>\<open>2024-10-14T07:00:00\<close> and end
  \<^verbatim>\<open>2024-10-14T08:00:00\<close> in \<^verbatim>\<open>America/New_York\<close>, summary \<^verbatim>\<open>Exercise\<close>, location
  \<^verbatim>\<open>Gym\<close>, description \<^verbatim>\<open>Workout\<close> and recurrence the one-element list
  \<^verbatim>\<open>RRULE:FREQ=WEEKLY;COUNT=52;BYDAY=MO\<close>; a run on the table holding this row submits
  exactly that event to the configured calendar.
\<close>

theorem exercise_row_event:
  "build_event (DictReader_row standard_header exercise_row) = Inr exercise_event
   \<and> inserts (snd (snd (main example_world))) = [(''primary'', exercise_event)]"
  by code_simp

text \<open>C6, as stated, fails in one field: the event with recurrence
  \<^verbatim>\<open>FREQ=WEEKLY;COUNT=52;BYDAY=MO\<close> is not the event built.\<close>

theorem exercise_row_counterexample:
  "build_event (DictReader_row standard_header exercise_row) \<noteq>
     Inr (exercise_event\<lparr>recurrence := [''FREQ=WEEKLY;COUNT=52;BYDAY=MO'']\<rparr>)"
  by code_simp

subsection \<open>The import loop\<close>

lemma events_of_Nil [simp]: "events_of fns [] evs \<longleftrightarrow> evs = []"
  by (auto simp: events_of_def data_rows_def)

lemma events_of_blank [simp]: "events_of fns ([] # rs) evs \<longleftrightarrow> events_of fns rs evs"
  by (simp add: events_of_def data_rows_def)

lemma events_of_Cons:
  "r \<noteq> [] \<Longrightarrow> events_of fns (r # rs) evs \<longleftrightarrow>
     (\<exists>ev evs'. evs = ev # evs' \<and> build_event (DictReader_row fns r) = Inr ev
        \<and> events_of fns rs evs')"
  by (auto simp: events_of_def data_rows_def list_all2_Cons1)

lemma events_of_length: "events_of fns rs evs \<Longrightarrow> length evs = length (data_rows rs)"
  by (simp add: events_of_def list_all2_lengthD)

lemma lefts_of_rights [simp]:
  "concat (map (case_sum (\<lambda>e. [e]) (\<lambda>v. []) \<circ> Inr) xs) = []"
  by (induction xs) auto

lemma rights_of_rights [simp]:
  "concat (map (case_sum (\<lambda>e. []) (\<lambda>v. [v]) \<circ> Inr) xs) = xs"
  by (induction xs) auto

lemma api_level_created [simp]: "list_all api_level (map Inr xs)"
  by (induction xs) (auto simp: api_level_def)

text \<open>When every data row is valid and every answer is at the level of the API, the loop
  runs to its end: one insert per data row, in order, one error line per rejected event
  and one link line per created event.\<close>

lemma insert_rows_complete:
  "events_of fns rs evs \<Longrightarrow> list_all api_level (replies w n evs) \<Longrightarrow>
   fst (insert_rows w cid fns n rs) = Inr ()
   \<and> inserts (snd (insert_rows w cid fns n rs)) = map (Pair cid) evs
   \<and> error_logs (snd (insert_rows w cid fns n rs)) = [e. Inl e \<leftarrow> replies w n evs]
   \<and> created_logs (snd (insert_rows w cid fns n rs)) = [v. Inr v \<leftarrow> replies w n evs]"
proof (induction rs arbitrary: evs n)
  case Nil
  then show ?case by simp
next
  case (Cons r rs)
  show ?case
  proof (cases "r = []")
    case True
    with Cons show ?thesis by simp
  next
    case False
    with Cons.prems(1) obtain ev evs' where
      evs: "evs = ev # evs'" and ev: "build_event (DictReader_row fns r) = Inr ev"
      and rest: "events_of fns rs evs'"
      by (auto simp: events_of_Cons)
    from Cons.prems(2) evs have here: "api_level (insert_reply w n ev)"
      and later: "list_all api_level (replies w (Suc n) evs')"
      by simp_all
    note IH = Cons.IH [OF rest later]
    show ?thesis
    proof (cases "insert_reply w n ev")
      case (Inl e)
      with here have "is_HttpError e" by (simp add: api_level_def)
      with Inl False ev evs IH show ?thesis by simp
    next
      case (Inr v)
      with False ev evs IH show ?thesis by simp
    qed
  qed
qed

text \<open>A row that raises before its insert call ends the loop there: the rows before it
  have been submitted, the rows after it are never looked at.\<close>

lemma insert_rows_abort:
  "events_of fns pre evs \<Longrightarrow> list_all api_level (replies w n evs) \<Longrightarrow>
   bad \<noteq> [] \<Longrightarrow> build_event (DictReader_row fns bad) = Inl e \<Longrightarrow>
   fst (insert_rows w cid fns n (pre @ bad # post)) = Inl e
   \<and> inserts (snd (insert_rows w cid fns n (pre @ bad # post))) = map (Pair cid) evs"
proof (induction pre arbitrary: evs n)
  case Nil
  then show ?case by simp
next
  case (Cons r rs)
  show ?case
  proof (cases "r = []")
    case True
    with Cons show ?thesis by simp
  next
    case False
    with Cons.prems(1) obtain ev evs' where
      evs: "evs = ev # evs'" and ev: "build_event (DictReader_row fns r) = Inr ev"
      and rest: "events_of fns rs evs'"
      by (auto simp: events_of_Cons)
    from Cons.prems(2) evs have here: "api_level (insert_reply w n ev)"
      and later: "list_all api_level (replies w (Suc n) evs')"
      by simp_all
    note IH = Cons.IH [OF rest later Cons.prems(3) Cons.prems(4)]
    show ?thesis
    proof (cases "insert_reply w n ev")
      case (Inl e')
      with here have "is_HttpError e'" by (simp add: api_level_def)
      with Inl False ev evs IH show ?thesis by simp
    next
      case (Inr v)
      with False ev evs IH show ?thesis by simp
    qed
  qed
qed

text \<open>With a header line and a calendar identifier, the function is its loop over the
  records after the header, as far as result, inserts and these log lines go.\<close>

lemma add_events_from_csv_rows:
  assumes "calendar_events_csv w = Inr (header # rows)" "header \<noteq> []"
    "CALENDAR_ID w = Some cid" "cid \<noteq> []"
  shows "fst (add_events_from_csv w service) = fst (insert_rows w cid header 0 rows)"
    and "inserts (snd (add_events_from_csv w service)) =
           inserts (snd (insert_rows w cid header 0 rows))"
    and "error_logs (snd (add_events_from_csv w service)) =
           error_logs (snd (insert_rows w cid header 0 rows))"
    and "created_logs (snd (add_events_from_csv w service)) =
           created_logs (snd (insert_rows w cid header 0 rows))"
  using assms by (simp_all add: add_events_from_csv_def next_record_def split: option.splits)

lemma check_fields_error: "check_fields d = Inl e \<Longrightarrow> \<exists>msg. e = ValueError msg"
  by (auto simp: check_fields_def split: if_splits)

lemma strptime_error:
  assumes "strptime s = Inl e"
  shows "\<exists>msg. e = ValueError msg"
proof (cases "format_regex_match s")
  case None
  with assms show ?thesis by (auto simp: strptime_def)
next
  case (Some x)
  obtain g rest where x: "x = (g, rest)" by (cases x)
  obtain Y m d H M where g: "g = (Y, m, d, H, M)" by (cases g)
  show ?thesis
  proof (cases "rest = []")
    case True
    with assms Some x g show ?thesis
      by (auto simp: strptime_def dest: check_fields_error)
  next
    case False
    with assms Some x g show ?thesis by (auto simp: strptime_def)
  qed
qed

lemma build_event_parse_failure:
  assumes "row ''Start Date'' = Some sd" "row ''Start Time'' = Some st"
    "row ''End Date'' = Some ed" "row ''End Time'' = Some et"
    and "isl (strptime (py_str sd @ '' '' @ py_str st))
         \<or> isl (strptime (py_str ed @ '' '' @ py_str et))"
  shows "\<exists>msg. build_event row = Inl (ValueError msg)"
proof (cases "strptime (py_str sd @ '' '' @ py_str st)")
  case (Inl e)
  with strptime_error [OF Inl] assms(1,2) show ?thesis
    by (auto simp: build_event_def getitem_def and_then_def)
next
  case (Inr dt)
  with assms(5) obtain e where e: "strptime (py_str ed @ '' '' @ py_str et) = Inl e"
    by (cases "strptime (py_str ed @ '' '' @ py_str et)") auto
  with strptime_error [OF e] Inr assms(1-4) show ?thesis
    by (auto simp: build_event_def getitem_def and_then_def)
qed

lemma calls_made_all: "list_all api_level rs \<Longrightarrow> calls_made rs = length rs"
  by (induction rs) auto

text \<open>Whatever the service answers, the insert calls made for a table of valid rows are
  the events of its first rows, in order, as many as \<open>calls_made\<close> says.\<close>

lemma insert_rows_calls:
  "events_of fns rs evs \<Longrightarrow>
   inserts (snd (insert_rows w cid fns n rs)) =
     map (Pair cid) (take (calls_made (replies w n evs)) evs)"
proof (induction rs arbitrary: evs n)
  case Nil
  then show ?case by simp
next
  case (Cons r rs)
  show ?case
  proof (cases "r = []")
    case True
    with Cons show ?thesis by simp
  next
    case False
    with Cons.prems obtain ev evs' where
      evs: "evs = ev # evs'" and ev: "build_event (DictReader_row fns r) = Inr ev"
      and rest: "events_of fns rs evs'"
      by (auto simp: events_of_Cons)
    note IH = Cons.IH [OF rest, of "Suc n"]
    show ?thesis
    proof (cases "insert_reply w n ev")
      case (Inl e)
      with False ev evs IH show ?thesis
        by (cases "is_HttpError e") (simp_all add: api_level_def)
    next
      case (Inr v)
      with False ev evs IH show ?thesis by (simp add: api_level_def)
    qed
  qed
qed

text \<open>
  C5, as amended. For a table with a header line and valid data rows (blank lines are
  not rows) and a calendar identifier, the insert calls of the import are the events of
  the data rows, one call per row, in table order and scoped to the configured
  calendar, up to and including the first call that the service answers with an
  exception other than an API error. When every call is answered with a created event
  or an API error, the import returns normally and has made exactly as many calls as
  there are data rows.
\<close>

theorem one_insert_per_row_in_order:
  assumes "calendar_events_csv w = Inr (header # rows)" "header \<noteq> []"
    and "CALENDAR_ID w = Some cid" "cid \<noteq> []"
    and "events_of header rows evs"
  shows "inserts (snd (add_events_from_csv w service)) =
           map (Pair cid) (take (calls_made (replies w 0 evs)) evs)
       \<and> (list_all api_level (replies w 0 evs) \<longrightarrow>
            fst (add_events_from_csv w service) = Inr ()
            \<and> inserts (snd (add_events_from_csv w service)) = map (Pair cid) evs
            \<and> length (inserts (snd (add_events_from_csv w service))) = length (data_rows rows))"
proof -
  have calls: "inserts (snd (add_events_from_csv w service)) =
                 map (Pair cid) (take (calls_made (replies w 0 evs)) evs)"
    using insert_rows_calls [OF assms(5), of w cid 0]
      add_events_from_csv_rows(2) [OF assms(1-4), of service]
    by simp
  have all: "fst (add_events_from_csv w service) = Inr ()
      \<and> inserts (snd (add_events_from_csv w service)) = map (Pair cid) evs
      \<and> length (inserts (snd (add_events_from_csv w service))) = length (data_rows rows)"
    if "list_all api_level (replies w 0 evs)"
    using insert_rows_complete [OF assms(5) that, of cid]
      add_events_from_csv_rows [OF assms(1-4), of service] events_of_length [OF assms(5)]
    by simp
  from calls all show ?thesis by blast
qed

theorem one_insert_per_row_in_order_witness:
  "data_rows [exercise_row, [], reading_row] = [exercise_row, reading_row]
   \<and> list_all api_level (replies world_two_rows 0 [exercise_event, reading_event])
   \<and> fst (add_events_from_csv world_two_rows granted) = Inr ()
   \<and> inserts (snd (add_events_from_csv world_two_rows granted)) =
       [(''primary'', exercise_event), (''primary'', reading_event)]"
proof -
  have h1: "calendar_events_csv world_two_rows =
              Inr (standard_header # [exercise_row, [], reading_row])"
    by (simp add: world_two_rows_def example_world_def)
  have h2: "standard_header \<noteq> []"
    by (simp add: standard_header_def)
  have h3: "CALENDAR_ID world_two_rows = Some ''primary''"
    by (simp add: world_two_rows_def example_world_def)
  have h4: "''primary'' \<noteq> []"
    by simp
  have h5: "events_of standard_header [exercise_row, [], reading_row]
              [exercise_event, reading_event]"
    by code_simp
  have h6: "list_all api_level (replies world_two_rows 0 [exercise_event, reading_event])"
    by (simp add: api_level_def world_two_rows_def example_world_def)
  have d: "data_rows [exercise_row, [], reading_row] = [exercise_row, reading_row]"
    by (simp add: data_rows_def exercise_row_def reading_row_def)
  note t = one_insert_per_row_in_order [OF h1 h2 h3 h4 h5, of granted, THEN conjunct2,
      rule_format, OF h6]
  from d h6 t show ?thesis by simp
qed

text \<open>C5, as stated, fails: three valid rows, the second insert call ends in an error
  that is not an API error; two insert calls are made, not three, and the import ends
  with that error.\<close>

theorem lost_connection_counterexample:
  "events_of standard_header [exercise_row, reading_row, exercise_row]
     [exercise_event, reading_event, exercise_event]
   \<and> calendar_events_csv world_dropped =
       Inr [standard_header, exercise_row, reading_row, exercise_row]
   \<and> inserts (snd (add_events_from_csv world_dropped granted)) =
       [(''primary'', exercise_event), (''primary'', reading_event)]
   \<and> fst (add_events_from_csv world_dropped granted) = Inl (LibraryError ''connection reset'')"
  by code_simp

text \<open>
  C4. For a table of valid rows where the service answers one insert call with an API
  error and every other call with a created event, the import returns normally, every
  row's event has been submitted in table order (the rows after the rejected one
  included), exactly that one error has been logged, and a link has been logged for
  each of the other rows.
\<close>

theorem http_error_does_not_stop_import:
  assumes "calendar_events_csv w = Inr (header # rows)" "header \<noteq> []"
    and "CALENDAR_ID w = Some cid" "cid \<noteq> []"
    and "events_of header rows evs"
    and "replies w 0 evs = map Inr before @ Inl (HttpError m) # map Inr after"
  shows "fst (add_events_from_csv w service) = Inr ()
       \<and> inserts (snd (add_events_from_csv w service)) = map (Pair cid) evs
       \<and> error_logs (snd (add_events_from_csv w service)) = [HttpError m]
       \<and> created_logs (snd (add_events_from_csv w service)) = before @ after"
proof -
  have "list_all api_level (replies w 0 evs)"
    unfolding assms(6) by (simp add: api_level_def)
  from insert_rows_complete [OF assms(5) this, of cid]
    add_events_from_csv_rows [OF assms(1-4), of service]
  show ?thesis
    unfolding assms(6) by simp
qed

theorem http_error_does_not_stop_import_witness:
  "replies world_rejecting 0 [exercise_event, reading_event, exercise_event] =
     [Inr (PyStr ''link''), Inl (HttpError ''403''), Inr (PyStr ''link'')]
   \<and> fst (add_events_from_csv world_rejecting granted) = Inr ()
   \<and> inserts (snd (add_events_from_csv world_rejecting granted)) =
       [(''primary'', exercise_event), (''primary'', reading_event), (''primary'', exercise_event)]
   \<and> error_logs (snd (add_events_from_csv world_rejecting granted)) = [HttpError ''403'']
   \<and> created_logs (snd (add_events_from_csv world_rejecting granted)) =
       [PyStr ''link'', PyStr ''link'']"
proof -
  have h1: "calendar_events_csv world_rejecting =
              Inr (standard_header # [exercise_row, reading_row, exercise_row])"
    by (simp add: world_rejecting_def example_world_def)
  have h2: "standard_header \<noteq> []"
    by (simp add: standard_header_def)
  have h3: "CALENDAR_ID world_rejecting = Some ''primary''"
    by (simp add: world_rejecting_def example_world_def)
  have h4: "''primary'' \<noteq> []"
    by simp
  have h5: "events_of standard_header [exercise_row, reading_row, exercise_row]
              [exercise_event, reading_event, exercise_event]"
    by code_simp
  have h6: "replies world_rejecting 0 [exercise_event, reading_event, exercise_event] =
              map Inr [PyStr ''link''] @ Inl (HttpError ''403'') # map Inr [PyStr ''link'']"
    by (simp add: world_rejecting_def example_world_def)
  show ?thesis
    using h6 http_error_does_not_stop_import [OF h1 h2 h3 h4 h5 h6, of granted] by simp
qed

text \<open>
  C3. Let row \<open>k\<close> be a non-blank row that has the four date and time fields and whose
  start or end does not parse under \<^verbatim>\<open>%Y-%m-%d %H:%M\<close>, the rows before it being valid
  and answered at the level of the API. Then the import ends with the \<open>ValueError\<close> of
  that parse, which leaves \<^verbatim>\<open>add_events_from_csv\<close>; the insert calls made are exactly
  the events of the rows before \<open>k\<close>, in order; nothing is submitted for row \<open>k\<close> or for
  any row after it.
\<close>

theorem parse_failure_aborts_import:
  assumes "calendar_events_csv w = Inr (header # pre @ bad # post)"
    and "CALENDAR_ID w = Some cid" "cid \<noteq> []"
    and "events_of header pre evs"
    and "list_all api_level (replies w 0 evs)"
    and "bad \<noteq> []"
    and "DictReader_row header bad ''Start Date'' = Some sd"
    and "DictReader_row header bad ''Start Time'' = Some st"
    and "DictReader_row header bad ''End Date'' = Some ed"
    and "DictReader_row header bad ''End Time'' = Some et"
    and "isl (strptime (py_str sd @ '' '' @ py_str st))
         \<or> isl (strptime (py_str ed @ '' '' @ py_str et))"
  shows "(\<exists>msg. fst (add_events_from_csv w service) = Inl (ValueError msg))
       \<and> inserts (snd (add_events_from_csv w service)) = map (Pair cid) evs"
proof -
  have header: "header \<noteq> []"
    using assms(7) by (auto simp: DictReader_row_def)
  from build_event_parse_failure [OF assms(7-11)]
  obtain msg where msg: "build_event (DictReader_row header bad) = Inl (ValueError msg)"
    by blast
  from insert_rows_abort [OF assms(4,5,6) msg, of cid post]
    add_events_from_csv_rows [OF assms(1) header assms(2,3), of service]
  show ?thesis by simp
qed

theorem parse_failure_aborts_import_witness:
  "strptime ''2024-02-30 09:00'' = Inl (ValueError ''day is out of range for month'')
   \<and> fst (add_events_from_csv world_malformed granted) =
       Inl (ValueError ''day is out of range for month'')
   \<and> inserts (snd (add_events_from_csv world_malformed granted)) =
       [(''primary'', exercise_event)]"
proof -
  have h1: "calendar_events_csv world_malformed =
              Inr (standard_header # [exercise_row] @ malformed_row # [reading_row])"
    by (simp add: world_malformed_def example_world_def)
  have h2: "CALENDAR_ID world_malformed = Some ''primary''"
    by (simp add: world_malformed_def example_world_def)
  have h3: "''primary'' \<noteq> []"
    by simp
  have h4: "events_of standard_header [exercise_row] [exercise_event]"
    by code_simp
  have h5: "list_all api_level (replies world_malformed 0 [exercise_event])"
    by (simp add: api_level_def world_malformed_def example_world_def)
  have h6: "malformed_row \<noteq> []"
    by (simp add: malformed_row_def)
  have f1: "DictReader_row standard_header malformed_row ''Start Date'' = Some (PyStr ''2024-02-30'')"
    by code_simp
  have f2: "DictReader_row standard_header malformed_row ''Start Time'' = Some (PyStr ''09:00'')"
    by code_simp
  have f3: "DictReader_row standard_header malformed_row ''End Date'' = Some (PyStr ''2024-02-30'')"
    by code_simp
  have f4: "DictReader_row standard_header malformed_row ''End Time'' = Some (PyStr ''10:00'')"
    by code_simp
  have p: "strptime ''2024-02-30 09:00'' = Inl (ValueError ''day is out of range for month'')"
    by code_simp
  have h7: "isl (strptime (py_str (PyStr ''2024-02-30'') @ '' '' @ py_str (PyStr ''09:00'')))
            \<or> isl (strptime (py_str (PyStr ''2024-02-30'') @ '' '' @ py_str (PyStr ''10:00'')))"
    using p by (simp add: py_str_def)
  have b: "build_event (DictReader_row standard_header malformed_row) =
             Inl (ValueError ''day is out of range for month'')"
    by code_simp
  have r: "fst (add_events_from_csv world_malformed granted) =
             Inl (ValueError ''day is out of range for month'')"
    by code_simp
  show ?thesis
    using p r parse_failure_aborts_import [OF h1 h2 h3 h4 h5 h6 f1 f2 f3 f4 h7, of granted]
    by simp
qed

end
